theory Spec2Isabelle
  imports Complex_Main
begin

section \<open>Strings\<close>

definition isspace :: "char \<Rightarrow> bool" where
  "isspace c = ((of_char c :: int) \<in> {9, 10, 11, 12, 13, 28, 29, 30, 31, 32, 133, 160})"

definition lstrip :: "string \<Rightarrow> string" where
  "lstrip s = dropWhile isspace s"

definition strip :: "string \<Rightarrow> string" where
  "strip s = rev (lstrip (rev (lstrip s)))"

definition is_digit :: "char \<Rightarrow> bool" where
  "is_digit c = (48 \<le> (of_char c :: int) \<and> (of_char c :: int) \<le> 57)"

definition digit_val :: "char \<Rightarrow> int" where
  "digit_val c = of_char c - 48"

definition ascii_lower :: "char \<Rightarrow> char" where
  "ascii_lower c = (let n = (of_char c :: int) in if 65 \<le> n \<and> n \<le> 90 then char_of (n + 32) else c)"

section \<open>Floats\<close>

datatype pyfloat = Fin int int | NZero | PInf | NInf | NaN

function blen :: "int \<Rightarrow> int" where
  "blen n = (if n \<le> 0 then 0 else 1 + blen (n div 2))"
  by pat_completeness auto
termination
  by (relation "measure nat") auto

declare blen.simps [simp del]

definition pow2 :: "int \<Rightarrow> int" where
  "pow2 k = 2 ^ nat k"

definition pos_zero :: pyfloat where
  "pos_zero = Fin 0 (- 1074)"

definition fround :: "int \<Rightarrow> int \<Rightarrow> pyfloat" where
  "fround p q = (if p = 0 then pos_zero else
     (let a = (if p < 0 then - p else p);
          c = blen a - blen q;
          e = (if (if 0 \<le> c then q * pow2 c \<le> a else q \<le> a * pow2 (- c)) then c else c - 1);
          u = (if e < - 1022 then - 1022 else e) - 52;
          N = (if u \<le> 0 then a * pow2 (- u) else a);
          D = (if u \<le> 0 then q else q * pow2 u);
          f = N div D; r = N mod D;
          m0 = (if 2 * r < D then f else if D < 2 * r then f + 1 else if even f then f else f + 1);
          m = (if m0 = pow2 53 then pow2 52 else m0);
          u' = (if m0 = pow2 53 then u + 1 else u)
      in if 971 < u' then (if 0 < p then PInf else NInf)
         else if m = 0 then (if 0 < p then pos_zero else NZero)
         else Fin (if 0 < p then m else - m) u'))"

fun take_digits :: "string \<Rightarrow> string \<times> string" where
  "take_digits (c # u # d # ds) =
     (if is_digit c then
        (if u = CHR ''_'' \<and> is_digit d
         then (case take_digits (d # ds) of (xs, r) \<Rightarrow> (c # xs, r))
         else (case take_digits (u # d # ds) of (xs, r) \<Rightarrow> (c # xs, r)))
      else ([], c # u # d # ds))"
| "take_digits (c # cs) =
     (if is_digit c then (case take_digits cs of (xs, r) \<Rightarrow> (c # xs, r)) else ([], c # cs))"
| "take_digits [] = ([], [])"

definition dec_val :: "string \<Rightarrow> int" where
  "dec_val ds = foldl (\<lambda>a c. 10 * a + digit_val c) 0 ds"

definition parse_sign :: "string \<Rightarrow> bool \<times> string" where
  "parse_sign s = (case s of
       c # t \<Rightarrow> (if c = CHR ''-'' then (True, t) else if c = CHR ''+'' then (False, t) else (False, s))
     | [] \<Rightarrow> (False, s))"

definition parse_exponent :: "string \<Rightarrow> int option" where
  "parse_exponent s = (case s of
       [] \<Rightarrow> Some 0
     | c # t \<Rightarrow>
         (if c = CHR ''e'' \<or> c = CHR ''E'' then
            (case parse_sign t of (neg, t') \<Rightarrow>
              (case take_digits t' of (ed, r) \<Rightarrow>
                 (if ed = [] \<or> r \<noteq> [] then None
                  else Some (if neg then - dec_val ed else dec_val ed))))
          else None))"

definition parse_decimal :: "bool \<Rightarrow> string \<Rightarrow> pyfloat option" where
  "parse_decimal neg s =
     (case take_digits s of (ip, r1) \<Rightarrow>
       (case (case r1 of c # t \<Rightarrow> (if c = CHR ''.'' then take_digits t else ([], r1)) | [] \<Rightarrow> ([], r1)) of
          (fp, r2) \<Rightarrow>
            (if ip = [] \<and> fp = [] then None
             else (case parse_exponent r2 of
                 None \<Rightarrow> None
               | Some ex \<Rightarrow>
                   (let mant = dec_val (ip @ fp); k = ex - int (length fp)
                    in if mant = 0 then Some (if neg then NZero else pos_zero)
                       else if 0 \<le> k then Some (fround ((if neg then - mant else mant) * 10 ^ nat k) 1)
                       else Some (fround (if neg then - mant else mant) (10 ^ nat (- k))))))))"

definition float_isspace :: "char \<Rightarrow> bool" where
  "float_isspace c = ((of_char c :: int) \<in> {9, 10, 11, 12, 13, 32, 133, 160})"

definition py_float :: "string \<Rightarrow> pyfloat option" where
  "py_float s0 =
     (case parse_sign (rev (dropWhile float_isspace (rev (dropWhile float_isspace s0)))) of (neg, s) \<Rightarrow>
        (let l = map ascii_lower s in
         if l = ''inf'' \<or> l = ''infinity'' then Some (if neg then NInf else PInf)
         else if l = ''nan'' then Some NaN
         else parse_decimal neg s))"


subsection \<open>Float arithmetic and comparison\<close>

datatype py_error = ValueError | OverflowError | ZeroDivisionError | FileNotFoundError | AttributeError

definition ebind :: "py_error + 'a \<Rightarrow> ('a \<Rightarrow> py_error + 'b) \<Rightarrow> py_error + 'b" where
  "ebind x f = (case x of Inl e \<Rightarrow> Inl e | Inr v \<Rightarrow> f v)"

definition fround_exp :: "int \<Rightarrow> int \<Rightarrow> int \<Rightarrow> pyfloat" where
  "fround_exp p q e = (if 0 \<le> e then fround (p * pow2 e) q else fround p (q * pow2 (- e)))"

definition float_of_int :: "int \<Rightarrow> py_error + pyfloat" where
  "float_of_int n = (case fround n 1 of PInf \<Rightarrow> Inl OverflowError | NInf \<Rightarrow> Inl OverflowError | x \<Rightarrow> Inr x)"

fun float_add :: "pyfloat \<Rightarrow> pyfloat \<Rightarrow> pyfloat" where
  "float_add NaN _ = NaN"
| "float_add _ NaN = NaN"
| "float_add PInf NInf = NaN"
| "float_add NInf PInf = NaN"
| "float_add PInf _ = PInf"
| "float_add _ PInf = PInf"
| "float_add NInf _ = NInf"
| "float_add _ NInf = NInf"
| "float_add NZero y = y"
| "float_add x NZero = x"
| "float_add (Fin m1 e1) (Fin m2 e2) =
     (let e = (if e1 \<le> e2 then e1 else e2)
      in fround_exp (m1 * pow2 (e1 - e) + m2 * pow2 (e2 - e)) 1 e)"

definition is_zero :: "pyfloat \<Rightarrow> bool" where
  "is_zero x = (case x of Fin m e \<Rightarrow> m = 0 | NZero \<Rightarrow> True | _ \<Rightarrow> False)"

definition is_neg :: "pyfloat \<Rightarrow> bool" where
  "is_neg x = (case x of Fin m e \<Rightarrow> m < 0 | NZero \<Rightarrow> True | NInf \<Rightarrow> True | _ \<Rightarrow> False)"

definition is_inf :: "pyfloat \<Rightarrow> bool" where
  "is_inf x = (x = PInf \<or> x = NInf)"

definition float_quot :: "pyfloat \<Rightarrow> pyfloat \<Rightarrow> pyfloat" where
  "float_quot a b =
     (if a = NaN \<or> b = NaN then NaN
      else if is_inf a then
        (if is_inf b then NaN else if is_neg a \<noteq> is_neg b then NInf else PInf)
      else if is_inf b \<or> is_zero a then (if is_neg a \<noteq> is_neg b then NZero else pos_zero)
      else (case a of
          Fin m1 e1 \<Rightarrow>
            (case b of
               Fin m2 e2 \<Rightarrow>
                 fround_exp (if m2 < 0 then - m1 else m1) (if m2 < 0 then - m2 else m2) (e1 - e2)
             | _ \<Rightarrow> NaN)
        | _ \<Rightarrow> NaN))"

definition float_truediv :: "pyfloat \<Rightarrow> pyfloat \<Rightarrow> py_error + pyfloat" where
  "float_truediv a b = (if is_zero b then Inl ZeroDivisionError else Inr (float_quot a b))"

definition fin_lt :: "int \<times> int \<Rightarrow> int \<times> int \<Rightarrow> bool" where
  "fin_lt x y = (case x of (m1, e1) \<Rightarrow> (case y of (m2, e2) \<Rightarrow>
     (let e = (if e1 \<le> e2 then e1 else e2) in m1 * pow2 (e1 - e) < m2 * pow2 (e2 - e))))"

definition fin_parts :: "pyfloat \<Rightarrow> int \<times> int" where
  "fin_parts x = (case x of Fin m e \<Rightarrow> (m, e) | _ \<Rightarrow> (0, - 1074))"

fun float_lt :: "pyfloat \<Rightarrow> pyfloat \<Rightarrow> bool" where
  "float_lt NaN _ = False"
| "float_lt _ NaN = False"
| "float_lt PInf _ = False"
| "float_lt _ NInf = False"
| "float_lt NInf _ = True"
| "float_lt _ PInf = True"
| "float_lt x y = fin_lt (fin_parts x) (fin_parts y)"

definition float_le :: "pyfloat \<Rightarrow> pyfloat \<Rightarrow> bool" where
  "float_le x y = (x \<noteq> NaN \<and> y \<noteq> NaN \<and> \<not> float_lt y x)"

definition py_int :: "pyfloat \<Rightarrow> py_error + int" where
  "py_int x = (case x of
       NaN \<Rightarrow> Inl ValueError
     | PInf \<Rightarrow> Inl OverflowError
     | NInf \<Rightarrow> Inl OverflowError
     | NZero \<Rightarrow> Inr 0
     | Fin m e \<Rightarrow>
         Inr (if 0 \<le> e then m * pow2 e
              else if m < 0 then - ((- m) div pow2 (- e)) else m div pow2 (- e)))"

text \<open>
  The builtin \<open>sum\<close> starts from the integer 0, so the first float is added to \<open>0.0\<close>. Up to
  CPython 3.11 the remaining floats are added left to right. Since CPython 3.12 they are added
  with Neumaier's compensation: the rounding error of every addition is accumulated in \<open>c\<close> and
  added to the total at the end, when it is finite and not zero. The repository does not say which
  interpreter runs it, so the interpreter generation is a parameter of the model.
\<close>

datatype cpython = Before_3_12 | Since_3_12

definition float_neg :: "pyfloat \<Rightarrow> pyfloat" where
  "float_neg x = (case x of
       Fin m e \<Rightarrow> (if m = 0 then NZero else Fin (- m) e)
     | NZero \<Rightarrow> pos_zero
     | PInf \<Rightarrow> NInf
     | NInf \<Rightarrow> PInf
     | NaN \<Rightarrow> NaN)"

definition float_abs :: "pyfloat \<Rightarrow> pyfloat" where
  "float_abs x = (if is_neg x then float_neg x else x)"

definition float_sub :: "pyfloat \<Rightarrow> pyfloat \<Rightarrow> pyfloat" where
  "float_sub x y = float_add x (float_neg y)"

definition is_finite :: "pyfloat \<Rightarrow> bool" where
  "is_finite x = (case x of Fin m e \<Rightarrow> True | NZero \<Rightarrow> True | _ \<Rightarrow> False)"

definition neumaier_step :: "pyfloat \<times> pyfloat \<Rightarrow> pyfloat \<Rightarrow> pyfloat \<times> pyfloat" where
  "neumaier_step acc x = (case acc of (tot, c) \<Rightarrow>
     (let t = float_add tot x in
      (t, if float_le (float_abs x) (float_abs tot)
          then float_add c (float_add (float_sub tot t) x)
          else float_add c (float_add (float_sub x t) tot))))"

definition py_sum :: "cpython \<Rightarrow> pyfloat list \<Rightarrow> pyfloat" where
  "py_sum cp vals = (case cp of
       Before_3_12 \<Rightarrow> foldl float_add pos_zero vals
     | Since_3_12 \<Rightarrow>
         (case vals of
            [] \<Rightarrow> pos_zero
          | x # xs \<Rightarrow>
              (case foldl neumaier_step (float_add pos_zero x, pos_zero) xs of
                 (tot, c) \<Rightarrow> if \<not> is_zero c \<and> is_finite c then float_add tot c else tot)))"

fun min_from :: "pyfloat \<Rightarrow> pyfloat list \<Rightarrow> pyfloat" where
  "min_from m [] = m"
| "min_from m (y # ys) = min_from (if float_lt y m then y else m) ys"

fun max_from :: "pyfloat \<Rightarrow> pyfloat list \<Rightarrow> pyfloat" where
  "max_from m [] = m"
| "max_from m (y # ys) = max_from (if float_lt m y then y else m) ys"

definition py_min :: "pyfloat list \<Rightarrow> py_error + pyfloat" where
  "py_min vals = (case vals of [] \<Rightarrow> Inl ValueError | x # xs \<Rightarrow> Inr (min_from x xs))"

definition py_max :: "pyfloat list \<Rightarrow> py_error + pyfloat" where
  "py_max vals = (case vals of [] \<Rightarrow> Inl ValueError | x # xs \<Rightarrow> Inr (max_from x xs))"


subsection \<open>Rendering numbers\<close>

definition digit_char :: "int \<Rightarrow> char" where
  "digit_char d = char_of (48 + d)"

function dec_digits :: "int \<Rightarrow> string" where
  "dec_digits n = (if n < 10 then [digit_char n] else dec_digits (n div 10) @ [digit_char (n mod 10)])"
  by pat_completeness auto
termination
  by (relation "measure nat") auto

declare dec_digits.simps [simp del]

definition str_int :: "int \<Rightarrow> string" where
  "str_int n = (if n < 0 then CHR ''-'' # dec_digits (- n) else dec_digits n)"

definition round_half_even :: "int \<Rightarrow> int \<Rightarrow> int" where
  "round_half_even N D = (let f = N div D; r = N mod D in
     if 2 * r < D then f else if D < 2 * r then f + 1 else if even f then f else f + 1)"

definition format_2f :: "pyfloat \<Rightarrow> string" where
  "format_2f x = (case x of
       NaN \<Rightarrow> ''nan''
     | PInf \<Rightarrow> ''inf''
     | NInf \<Rightarrow> ''-inf''
     | NZero \<Rightarrow> ''-0.00''
     | Fin m e \<Rightarrow>
         (let a = (if m < 0 then - m else m);
              n = (if 0 \<le> e then a * pow2 e * 100 else round_half_even (a * 100) (pow2 (- e)));
              fr = dec_digits (n mod 100)
          in (if m < 0 then ''-'' else '''') @ dec_digits (n div 100) @ ''.'' @
             (if length fr < 2 then CHR ''0'' # fr else fr)))"

definition pow10 :: "int \<Rightarrow> int" where
  "pow10 k = 10 ^ nat k"

definition ilog10 :: "int \<Rightarrow> int \<Rightarrow> int" where
  "ilog10 P Q = (let c = int (length (dec_digits P)) - int (length (dec_digits Q)) in
     if (if 0 \<le> c then Q * pow10 c \<le> P else Q \<le> P * pow10 (- c)) then c else c - 1)"

definition repr_candidate :: "int \<Rightarrow> int \<Rightarrow> int \<Rightarrow> int \<Rightarrow> (int \<times> int) option" where
  "repr_candidate a e d k =
     (let P = (if 0 \<le> e then a * pow2 e else a);
          Q = (if 0 \<le> e then 1 else pow2 (- e));
          s = d - k + 1;
          N = (if s \<le> 0 then P * pow10 (- s) else P);
          D = (if s \<le> 0 then Q else Q * pow10 s);
          lo = N div D; hi = lo + 1;
          ok_lo = (lo \<noteq> 0 \<and> (if 0 \<le> s then fround (lo * pow10 s) 1 else fround lo (pow10 (- s))) = Fin a e);
          ok_hi = ((if 0 \<le> s then fround (hi * pow10 s) 1 else fround hi (pow10 (- s))) = Fin a e);
          r = N mod D
      in if ok_lo \<and> ok_hi then
           Some (if 2 * r < D then lo else if D < 2 * r then hi else if even lo then lo else hi, s)
         else if ok_lo then Some (lo, s)
         else if ok_hi then Some (hi, s)
         else None)"

fun shortest_digits :: "nat \<Rightarrow> int \<Rightarrow> int \<Rightarrow> int \<Rightarrow> int \<Rightarrow> int \<times> int" where
  "shortest_digits 0 a e d k = (0, 0)"
| "shortest_digits (Suc fuel) a e d k =
     (case repr_candidate a e d k of Some r \<Rightarrow> r | None \<Rightarrow> shortest_digits fuel a e d (k + 1))"

fun strip_zeros :: "string \<Rightarrow> string" where
  "strip_zeros s = rev (dropWhile (\<lambda>c. c = CHR ''0'') (rev s))"

definition repr_layout :: "string \<Rightarrow> int \<Rightarrow> string" where
  "repr_layout ds decpt =
     (let n = int (length ds) in
      if decpt \<le> - 4 \<or> 16 < decpt then
        (let x = decpt - 1; ax = (if x < 0 then - x else x); xs = dec_digits ax
         in take 1 ds @ (if 1 < n then CHR ''.'' # drop 1 ds else '''') @ ''e'' @
            (if x < 0 then ''-'' else ''+'') @ (if length xs < 2 then CHR ''0'' # xs else xs))
      else if decpt \<le> 0 then ''0.'' @ replicate (nat (- decpt)) CHR ''0'' @ ds
      else if n \<le> decpt then ds @ replicate (nat (decpt - n)) CHR ''0'' @ ''.0''
      else take (nat decpt) ds @ CHR ''.'' # drop (nat decpt) ds)"

definition float_repr :: "pyfloat \<Rightarrow> string" where
  "float_repr x = (case x of
       NaN \<Rightarrow> ''nan''
     | PInf \<Rightarrow> ''inf''
     | NInf \<Rightarrow> ''-inf''
     | NZero \<Rightarrow> ''-0.0''
     | Fin m e \<Rightarrow>
         (if m = 0 then ''0.0''
          else
            (let a = (if m < 0 then - m else m);
                 d = (if 0 \<le> e then ilog10 (a * pow2 e) 1 else ilog10 a (pow2 (- e)))
             in (case shortest_digits 17 a e d 1 of (n, s) \<Rightarrow>
                  (let all = dec_digits n; ds = strip_zeros all
                   in (if m < 0 then ''-'' else '''') @ repr_layout ds (int (length all) + s))))))"


section \<open>Dictionaries\<close>

type_synonym 'v dict = "(string \<times> 'v) list"

type_synonym row = "string dict"

definition keys :: "'v dict \<Rightarrow> string list" where
  "keys d = map fst d"

definition dict_get :: "'v dict \<Rightarrow> string \<Rightarrow> 'v \<Rightarrow> 'v" where
  "dict_get d k dflt = (case map_of d k of None \<Rightarrow> dflt | Some v \<Rightarrow> v)"

fun dict_set :: "'v dict \<Rightarrow> string \<Rightarrow> 'v \<Rightarrow> 'v dict" where
  "dict_set [] k v = [(k, v)]"
| "dict_set ((k', v') # d) k v = (if k' = k then (k, v) # d else (k', v') # dict_set d k v)"

definition cell :: "row \<Rightarrow> string \<Rightarrow> string" where
  "cell r c = strip (dict_get r c '''')"

section \<open>The analysis functions\<close>

fun column_ok :: "row list \<Rightarrow> string \<Rightarrow> bool" where
  "column_ok [] c = True"
| "column_ok (r # rs) c =
     (let v = cell r c in
      if v = '''' then column_ok rs c
      else (case py_float v of Some x \<Rightarrow> column_ok rs c | None \<Rightarrow> False))"

definition detect_numeric_columns :: "row list \<Rightarrow> string list" where
  "detect_numeric_columns rows =
     (case rows of [] \<Rightarrow> [] | r0 # rest \<Rightarrow> filter (column_ok rows) (keys r0))"

record stats =
  avg :: pyfloat
  minimum :: pyfloat
  maximum :: pyfloat
  count :: pyfloat

fun collect_vals :: "row list \<Rightarrow> string \<Rightarrow> pyfloat list" where
  "collect_vals [] col = []"
| "collect_vals (r # rs) col =
     (let v = cell r col in
      if v = '''' then collect_vals rs col
      else (case py_float v of Some x \<Rightarrow> x # collect_vals rs col | None \<Rightarrow> collect_vals rs col))"

definition basic_stats :: "cpython \<Rightarrow> row list \<Rightarrow> string \<Rightarrow> py_error + stats option" where
  "basic_stats cp rows col =
     (let vals = collect_vals rows col in
      if vals = [] then Inr None
      else
        ebind (float_of_int (int (length vals))) (\<lambda>n.
        ebind (float_truediv (py_sum cp vals) n) (\<lambda>a.
        ebind (py_min vals) (\<lambda>lo.
        ebind (py_max vals) (\<lambda>hi.
          Inr (Some \<lparr>avg = a, minimum = lo, maximum = hi, count = n\<rparr>))))))"

definition count_missing :: "row list \<Rightarrow> string \<Rightarrow> int" where
  "count_missing rows c = fold (\<lambda>r cnt. if cell r c = '''' then cnt + 1 else cnt) rows 0"

definition missing_values :: "row list \<Rightarrow> int dict" where
  "missing_values rows =
     (case rows of
        [] \<Rightarrow> []
      | r0 # rest \<Rightarrow>
          fold (\<lambda>c out. (let cnt = count_missing rows c in if 0 < cnt then dict_set out c cnt else out))
               (keys r0) [])"

fun first_not_in :: "string list \<Rightarrow> string list \<Rightarrow> string option" where
  "first_not_in [] numeric_cols = None"
| "first_not_in (c # cs) numeric_cols =
     (if c \<notin> set numeric_cols then Some c else first_not_in cs numeric_cols)"

definition first_categorical_column :: "row list \<Rightarrow> string list \<Rightarrow> string option" where
  "first_categorical_column rows numeric_cols =
     (case rows of [] \<Rightarrow> None | r0 # rest \<Rightarrow> first_not_in (keys r0) numeric_cols)"

definition count_values :: "row list \<Rightarrow> string \<Rightarrow> int dict" where
  "count_values rows col =
     fold (\<lambda>r freq. (let v = cell r col in
                      if v = '''' then freq else dict_set freq v (dict_get freq v 0 + 1)))
          rows []"

fun max_by_count :: "string \<times> int \<Rightarrow> (string \<times> int) list \<Rightarrow> string \<times> int" where
  "max_by_count best [] = best"
| "max_by_count best (kv # kvs) = max_by_count (if snd best < snd kv then kv else best) kvs"

definition most_frequent :: "row list \<Rightarrow> string \<Rightarrow> (string \<times> int) option" where
  "most_frequent rows col =
     (case count_values rows col of [] \<Rightarrow> None | kv # kvs \<Rightarrow> Some (max_by_count kv kvs))"

section \<open>The report\<close>

definition newline :: char where
  "newline = CHR 0x0A"

fun join_lines :: "string list \<Rightarrow> string" where
  "join_lines [] = ''''"
| "join_lines [l] = l"
| "join_lines (l # ls) = l @ newline # join_lines ls"

definition divider :: string where
  "divider = replicate 32 CHR ''-''"

definition stat_line :: "string \<Rightarrow> stats \<Rightarrow> int \<Rightarrow> string" where
  "stat_line c s n = ''  '' @ c @ '': avg='' @ format_2f (avg s) @ '', min='' @ float_repr (minimum s) @
     '', max='' @ float_repr (maximum s) @ '' (n='' @ str_int n @ '')''"

fun numeric_lines :: "(string \<rightharpoonup> stats) \<Rightarrow> string list \<Rightarrow> py_error + string list" where
  "numeric_lines stats_map [] = Inr []"
| "numeric_lines stats_map (c # cs) =
     (case stats_map c of
        None \<Rightarrow> numeric_lines stats_map cs
      | Some s \<Rightarrow>
          ebind (py_int (count s)) (\<lambda>n.
          ebind (numeric_lines stats_map cs) (\<lambda>ls. Inr (stat_line c s n # ls))))"

definition truthy :: "string option \<Rightarrow> bool" where
  "truthy cat_col = (case cat_col of None \<Rightarrow> False | Some c \<Rightarrow> c \<noteq> '''')"

definition categorical_lines :: "string option \<Rightarrow> (string \<times> int) option \<Rightarrow> string list" where
  "categorical_lines cat_col cat_top =
     (if truthy cat_col \<and> cat_top \<noteq> None then
        [''Most frequent value in '' @ [CHR 0x27] @ the cat_col @ [CHR 0x27] @ '': '' @ fst (the cat_top) @
           '' ('' @ str_int (snd (the cat_top)) @ '' occurrences)'', '''']
      else if truthy cat_col then
        [''No frequent value computed for '' @ [CHR 0x27] @ the cat_col @ [CHR 0x27] @ '' (no non-empty values).'', '''']
      else [])"

definition missing_lines :: "int dict \<Rightarrow> string list" where
  "missing_lines missing =
     (if missing \<noteq> [] then
        ''Missing values:'' # map (\<lambda>(c, n). ''  '' @ c @ '': '' @ str_int n) missing @ ['''']
      else [])"

definition notes_lines :: "string list \<Rightarrow> string option \<Rightarrow> (string \<times> int) option \<Rightarrow> int dict \<Rightarrow> string list" where
  "notes_lines numeric_cols cat_col cat_top missing =
     [''Notes:''] @
     (if numeric_cols \<noteq> [] then [''- Numeric spread suggests basic variation present.''] else []) @
     (if truthy cat_col \<and> cat_top \<noteq> None then
        [''- '' @ [CHR 0x27] @ the cat_col @ [CHR 0x27] @ '' has a dominant category: '' @ fst (the cat_top) @ ''.'']
      else []) @
     (if missing = [] then [''- No missing values detected.''] else []) @
     [divider]"

definition report_lines ::
  "string \<Rightarrow> int \<Rightarrow> string list \<Rightarrow> (string \<rightharpoonup> stats) \<Rightarrow> string option \<Rightarrow> (string \<times> int) option \<Rightarrow> int dict
     \<Rightarrow> py_error + string list" where
  "report_lines file_name rows_count numeric_cols stats_map cat_col cat_top missing =
     ebind (if numeric_cols \<noteq> []
            then ebind (numeric_lines stats_map numeric_cols)
                   (\<lambda>ls. Inr (''Numeric columns summary:'' # ls @ ['''']))
            else Inr [''No numeric columns detected.'', '''']) (\<lambda>numeric_section.
       Inr ([''DATA INSIGHTS REPORT'', divider, ''Source file: '' @ file_name,
             ''Total rows: '' @ str_int rows_count, ''''] @
            numeric_section @
            categorical_lines cat_col cat_top @
            missing_lines missing @
            notes_lines numeric_cols cat_col cat_top missing))"

record world =
  files :: "string \<rightharpoonup> string"
  stdout :: "string list"

definition print_line :: "string \<Rightarrow> world \<Rightarrow> world" where
  "print_line l w = w\<lparr>stdout := stdout w @ [l]\<rparr>"

definition write_report ::
  "string \<Rightarrow> string \<Rightarrow> int \<Rightarrow> string list \<Rightarrow> (string \<rightharpoonup> stats) \<Rightarrow> string option \<Rightarrow> (string \<times> int) option
     \<Rightarrow> int dict \<Rightarrow> world \<Rightarrow> py_error + world" where
  "write_report out_path file_name rows_count numeric_cols stats_map cat_col cat_top missing w =
     ebind (report_lines file_name rows_count numeric_cols stats_map cat_col cat_top missing) (\<lambda>ls.
       Inr (w\<lparr>files := (files w)(out_path \<mapsto> join_lines ls)\<rparr>))"

section \<open>The script\<close>

definition path_join :: "string \<Rightarrow> string \<Rightarrow> string" where
  "path_join a b =
     (if b \<noteq> [] \<and> hd b = CHR ''/'' then b
      else if a = [] \<or> last a = CHR ''/'' then a @ b
      else a @ CHR ''/'' # b)"

definition basename :: "string \<Rightarrow> string" where
  "basename p = rev (takeWhile (\<lambda>c. c \<noteq> CHR ''/'') (rev p))"

text \<open>
  \<open>csv.DictReader\<close> yields one dictionary per line: the header names mapped to the fields, with
  \<open>None\<close> for the fields a short line lacks, and, when a line has more fields than the header, the
  surplus fields as a list under the key \<open>None\<close>. \<open>load_csv\<close> replaces the \<open>None\<close> values by the
  empty string and keeps the list as it is. The reader itself (the CSV grammar) is a parameter.
\<close>

type_synonym raw_row = "(string \<times> string option) list \<times> string list option"

type_synonym csv_reader = "string \<Rightarrow> raw_row list"

type_synonym loaded_row = "row \<times> string list option"

definition load_csv :: "csv_reader \<Rightarrow> (string \<rightharpoonup> string) \<Rightarrow> string \<Rightarrow> py_error + loaded_row list" where
  "load_csv reader fs path =
     (case fs path of
        None \<Rightarrow> Inl FileNotFoundError
      | Some text \<Rightarrow>
          Inr (map (\<lambda>(r, surplus). (map (\<lambda>(k, v). (k, case v of None \<Rightarrow> '''' | Some s \<Rightarrow> s)) r, surplus))
                   (reader text)))"

fun build_stats_map ::
  "cpython \<Rightarrow> row list \<Rightarrow> string list \<Rightarrow> (string \<rightharpoonup> stats) \<Rightarrow> py_error + (string \<rightharpoonup> stats)" where
  "build_stats_map cp rows [] stats_map = Inr stats_map"
| "build_stats_map cp rows (c # cs) stats_map =
     ebind (basic_stats cp rows c) (\<lambda>s.
       build_stats_map cp rows cs (case s of None \<Rightarrow> stats_map | Some st \<Rightarrow> stats_map(c \<mapsto> st)))"

definition csv_path_of :: "string \<Rightarrow> string" where
  "csv_path_of here = path_join (path_join here ''data'') ''sales_data.csv''"

definition out_path_of :: "string \<Rightarrow> string" where
  "out_path_of here = path_join here ''sample_output.txt''"

text \<open>
  The analysis functions are typed on dictionaries from strings to strings. They read the columns
  from the keys of the first row, so a first row with the key \<open>None\<close> makes
  \<open>detect_numeric_columns\<close> call \<open>strip\<close> on a list, which raises \<open>AttributeError\<close>; the key
  \<open>None\<close> of a later row is never looked up.
\<close>

definition main :: "cpython \<Rightarrow> csv_reader \<Rightarrow> string \<Rightarrow> world \<Rightarrow> py_error + world" where
  "main cp reader here w =
     (let csv_path = csv_path_of here in
      if files w csv_path = None then Inr (print_line (''File not found: '' @ csv_path) w)
      else
        ebind (load_csv reader (files w) csv_path) (\<lambda>loaded.
          (let w1 = print_line (''Loaded '' @ str_int (int (length loaded)) @ '' rows.'') w;
               rows = map fst loaded
           in if loaded \<noteq> [] \<and> snd (hd loaded) \<noteq> None then Inl AttributeError
              else
               (let numeric_cols = detect_numeric_columns rows
                in ebind (build_stats_map cp rows numeric_cols Map.empty) (\<lambda>stats_map.
                (let cat_col = first_categorical_column rows numeric_cols;
                     cat_top = (if truthy cat_col then most_frequent rows (the cat_col) else None);
                     missing = missing_values rows;
                     out_path = out_path_of here
                 in ebind (write_report out_path (basename csv_path) (int (length rows)) numeric_cols
                             stats_map cat_col cat_top missing w1) (\<lambda>w2.
                      Inr (print_line (''Report written to: '' @ out_path) w2))))))))"

section \<open>Values of floats, for the proofs\<close>

definition float_val :: "pyfloat \<Rightarrow> rat" where
  "float_val x = (case x of Fin m e \<Rightarrow> of_int m * power_int 2 e | _ \<Rightarrow> 0)"

definition float_rank :: "pyfloat \<Rightarrow> int" where
  "float_rank x = (case x of NInf \<Rightarrow> - 1 | PInf \<Rightarrow> 1 | _ \<Rightarrow> 0)"

section \<open>Example data\<close>

definition scenario :: "row list" where
  "scenario =
     [[(''region'', ''east''), (''amount'', ''10'')],
      [(''region'', ''west''), (''amount'', ''20'')],
      [(''region'', ''east''), (''amount'', '''')]]"

definition demo_reader :: csv_reader where
  "demo_reader text = map (\<lambda>r. (map (\<lambda>(k, v). (k, Some v)) r, None)) scenario"

definition empty_world :: world where
  "empty_world = \<lparr>files = Map.empty, stdout = []\<rparr>"

definition blank_row :: "row list" where
  "blank_row = [[(''a'', '' '')]]"

definition tenths :: "row list" where
  "tenths = [[(''a'', ''0.1'')], [(''a'', ''0.1'')], [(''a'', ''0.1'')]]"

section \<open>Two sentences of the specification, read literally\<close>

text \<open>
  The specification speaks of ``non-empty cells'' and of ``cells that are the empty string''.
  The two definitions below take these words literally, on the raw cell; the functions of the
  script test the cell after \<open>str.strip()\<close>.
\<close>

definition numeric_columns_as_stated :: "row list \<Rightarrow> string list" where
  "numeric_columns_as_stated rows =
     (case rows of
        [] \<Rightarrow> []
      | r0 # rest \<Rightarrow>
          filter (\<lambda>c. \<forall>r\<in>set rows. dict_get r c '''' \<noteq> '''' \<longrightarrow> py_float (dict_get r c '''') \<noteq> None)
                 (keys r0))"

definition missing_values_as_stated :: "row list \<Rightarrow> int dict" where
  "missing_values_as_stated rows =
     (case rows of
        [] \<Rightarrow> []
      | r0 # rest \<Rightarrow>
          map (\<lambda>c. (c, int (length (filter (\<lambda>r. dict_get r c '''' = '''') rows))))
              (filter (\<lambda>c. 0 < length (filter (\<lambda>r. dict_get r c '''' = '''') rows)) (keys r0)))"

section \<open>Recognising lines of the report\<close>

fun starts_with :: "string \<Rightarrow> string \<Rightarrow> bool" where
  "starts_with [] l = True"
| "starts_with (p # ps) [] = False"
| "starts_with (p # ps) (x # xs) = (p = x \<and> starts_with ps xs)"

definition is_categorical_line :: "string \<Rightarrow> bool" where
  "is_categorical_line l =
     (starts_with ''Most frequent value in '' l \<or> starts_with ''No frequent value computed for '' l \<or>
      starts_with (''- '' @ [CHR 0x27]) l)"

definition all_numeric :: "row list" where
  "all_numeric = [[(''x'', ''1'')]]"

definition numeric_only_report :: "string list" where
  "numeric_only_report =
     [''DATA INSIGHTS REPORT'', ''--------------------------------'', ''Source file: sales_data.csv'',
      ''Total rows: 1'', '''', ''Numeric columns summary:'', ''  x: avg=1.00, min=1.0, max=1.0 (n=1)'', '''',
      ''Notes:'', ''- Numeric spread suggests basic variation present.'', ''- No missing values detected.'',
      ''--------------------------------'']"

definition one_stats :: "string \<rightharpoonup> stats" where
  "one_stats = [''x'' \<mapsto> \<lparr>avg = Fin 4503599627370496 (- 52), minimum = Fin 4503599627370496 (- 52),
                           maximum = Fin 4503599627370496 (- 52), count = Fin 4503599627370496 (- 52)\<rparr>]"

section \<open>The arithmetic mean, read literally\<close>

text \<open>
  The specification calls the reported average the arithmetic mean of the parsed values. Taken
  literally, for finite values: \<open>a\<close> is the arithmetic mean of \<open>vals\<close> when \<open>a\<close> times the number
  of values is their exact sum. The comparison is made on the mantissas scaled to the exponent
  \<open>- 1074\<close>, below which no double has a bit.
\<close>

definition scaled :: "pyfloat \<Rightarrow> int" where
  "scaled x = (case x of Fin m e \<Rightarrow> m * pow2 (e + 1074) | _ \<Rightarrow> 0)"

definition is_arithmetic_mean :: "pyfloat \<Rightarrow> pyfloat list \<Rightarrow> bool" where
  "is_arithmetic_mean a vals =
     (is_finite a \<and> list_all is_finite vals \<and>
      scaled a * int (length vals) = sum_list (map scaled vals))"

section \<open>Datasets that agree on a column\<close>

definition cells_agree :: "string \<Rightarrow> row list \<Rightarrow> row list \<Rightarrow> bool" where
  "cells_agree k rows' rows = list_all2 (\<lambda>r' r. cell r' k = cell r k) rows' rows"

section \<open>Auxiliary facts\<close>

lemma pow2_nonneg_Suc: "0 \<le> k \<Longrightarrow> pow2 (k + 1) = 2 * pow2 k"
  by (simp add: pow2_def nat_add_distrib)

lemma pow2_pos: "0 < pow2 k"
  by (simp add: pow2_def)

lemma pow2_0: "pow2 0 = 1"
  by (simp add: pow2_def)

lemma pow2_add: "0 \<le> a \<Longrightarrow> 0 \<le> b \<Longrightarrow> pow2 (a + b) = pow2 a * pow2 b"
  by (simp add: pow2_def nat_add_distrib power_add)

lemma blen_nonpos: "n \<le> 0 \<Longrightarrow> blen n = 0"
  by (simp add: blen.simps)

lemma blen_step: "0 < n \<Longrightarrow> blen n = 1 + blen (n div 2)"
  by (subst blen.simps) simp

lemma blen_bounds: "0 < n \<Longrightarrow> 0 < blen n \<and> pow2 (blen n - 1) \<le> n \<and> n < pow2 (blen n)"
proof (induction n rule: blen.induct)
  case (1 n)
  show ?case
  proof (cases "n div 2 \<le> 0")
    case True
    with "1.prems" have n1: "n = 1" by linarith
    have "blen 1 = 1" by (simp add: blen_step blen_nonpos)
    with n1 show ?thesis by (simp add: pow2_def)
  next
    case False
    then have pos: "0 < n div 2" by simp
    have nle: "\<not> n \<le> 0" using "1.prems" by simp
    from "1.IH" [OF nle pos]
    have b: "0 < blen (n div 2)" and lo: "pow2 (blen (n div 2) - 1) \<le> n div 2"
      and hi: "n div 2 < pow2 (blen (n div 2))" by auto
    have eq: "blen n = 1 + blen (n div 2)" using "1.prems" by (rule blen_step)
    have p1: "pow2 (blen (n div 2)) = 2 * pow2 (blen (n div 2) - 1)"
      using pow2_nonneg_Suc [of "blen (n div 2) - 1"] b by simp
    have p2: "pow2 (1 + blen (n div 2)) = 2 * pow2 (blen (n div 2))"
      using pow2_nonneg_Suc [of "blen (n div 2)"] b by (simp add: add.commute)
    have "pow2 (blen (n div 2)) \<le> n" using lo p1 by linarith
    moreover have "n < pow2 (1 + blen (n div 2))" using hi p2 by linarith
    ultimately show ?thesis using eq b by simp
  qed
qed

lemma blen_one: "blen 1 = 1"
  by (simp add: blen_step blen_nonpos)

lemma pow2_mono: "a \<le> b \<Longrightarrow> pow2 a \<le> pow2 b"
  by (simp add: pow2_def nat_mono power_increasing)

lemma pow2_less_imp: "pow2 a < pow2 b \<Longrightarrow> a < b"
  using pow2_mono [of b a] by (cases "a < b") auto

lemma fround_small_int:
  assumes "0 < n" "n < pow2 53"
  shows "fround n 1 = Fin (n * pow2 (53 - blen n)) (blen n - 53)"
proof -
  from blen_bounds [OF assms(1)]
  have b: "0 < blen n" and lo: "pow2 (blen n - 1) \<le> n" and hi: "n < pow2 (blen n)" by auto
  have "pow2 (blen n - 1) < pow2 53" using lo assms(2) by linarith
  then have b53: "blen n \<le> 53" using pow2_less_imp [of "blen n - 1" 53] by simp
  define k where "k = 53 - blen n"
  have k0: "0 \<le> k" using b53 by (simp add: k_def)
  have "pow2 (blen n) * pow2 k = pow2 53"
    using pow2_add [of "blen n" k] b k0 by (simp add: k_def)
  then have Nlt: "n * pow2 k < pow2 53"
    using hi pow2_pos [of k] by (metis mult_strict_right_mono)
  have Npos: "0 < n * pow2 k" using assms(1) pow2_pos [of k] by simp
  have c: "blen n - blen 1 = blen n - 1" by (simp add: blen_one)
  have u: "blen n - 1 - 52 = - k" by (simp add: k_def)
  have u2: "blen n - 53 = - k" by (simp add: k_def)
  have pk: "pow2 k \<noteq> 0" using pow2_pos [of k] by simp
  show ?thesis
    using assms(1) b lo Nlt Npos k0 b53 pk
    by (simp add: fround_def Let_def c u u2 blen_one k_def [symmetric])
qed

lemma pow2_power_int: "0 \<le> k \<Longrightarrow> (of_int (pow2 k) :: rat) = power_int 2 k"
  by (simp add: pow2_def power_int_def)

lemma fin_lt_iff:
  "fin_lt (m1, e1) (m2, e2) \<longleftrightarrow> (of_int m1 * power_int 2 e1 < (of_int m2 * power_int 2 e2 :: rat))"
proof -
  define e where "e = (if e1 \<le> e2 then e1 else e2)"
  have k1: "0 \<le> e1 - e" and k2: "0 \<le> e2 - e" by (simp_all add: e_def)
  have P: "(0::rat) < power_int 2 e" by simp
  have s1: "(power_int 2 e1 :: rat) = power_int 2 (e1 - e) * power_int 2 e"
    by (simp flip: power_int_add)
  have s2: "(power_int 2 e2 :: rat) = power_int 2 (e2 - e) * power_int 2 e"
    by (simp flip: power_int_add)
  have "fin_lt (m1, e1) (m2, e2) \<longleftrightarrow> m1 * pow2 (e1 - e) < m2 * pow2 (e2 - e)"
    by (simp add: fin_lt_def e_def Let_def)
  also have "\<dots> \<longleftrightarrow> (of_int (m1 * pow2 (e1 - e)) :: rat) < of_int (m2 * pow2 (e2 - e))"
    by (simp only: of_int_less_iff)
  also have "\<dots> \<longleftrightarrow> (of_int m1 * power_int 2 (e1 - e) :: rat) < of_int m2 * power_int 2 (e2 - e)"
    by (simp only: of_int_mult pow2_power_int [OF k1] pow2_power_int [OF k2])
  also have "\<dots> \<longleftrightarrow> (of_int m1 * power_int 2 (e1 - e)) * power_int 2 e < (of_int m2 * power_int 2 (e2 - e) :: rat) * power_int 2 e"
    using P by (simp only: mult_less_cancel_right_pos)
  also have "\<dots> \<longleftrightarrow> (of_int m1 * power_int 2 e1 < (of_int m2 * power_int 2 e2 :: rat))"
    by (simp only: s1 s2 mult.assoc)
  finally show ?thesis .
qed

lemma float_lt_iff:
  "float_lt x y \<longleftrightarrow>
     x \<noteq> NaN \<and> y \<noteq> NaN \<and>
     (float_rank x < float_rank y \<or> (float_rank x = float_rank y \<and> float_val x < float_val y))"
  by (cases x; cases y) (simp_all add: float_rank_def float_val_def fin_parts_def fin_lt_iff)

lemma float_lt_trans: "float_lt x y \<Longrightarrow> float_lt y z \<Longrightarrow> float_lt x z"
  unfolding float_lt_iff by auto

lemma float_lt_asym: "float_lt x y \<Longrightarrow> \<not> float_lt y x"
  unfolding float_lt_iff by auto


lemma max_from_mem: "max_from m ys \<in> set (m # ys)"
  by (induction ys arbitrary: m) auto

lemma min_from_below: "min_from m ys = m \<or> float_lt (min_from m ys) m"
proof (induction ys arbitrary: m)
  case Nil
  then show ?case by simp
next
  case (Cons y ys)
  from Cons [of "if float_lt y m then y else m"] show ?case
    by (auto intro: float_lt_trans split: if_splits)
qed


lemma min_from_least: "v \<in> set (m # ys) \<Longrightarrow> \<not> float_lt v (min_from m ys)"
proof (induction ys arbitrary: m)
  case Nil
  then show ?case by (auto dest: float_lt_asym)
next
  case (Cons y ys)
  let ?m' = "if float_lt y m then y else m"
  have below: "min_from ?m' ys = ?m' \<or> float_lt (min_from ?m' ys) ?m'" by (rule min_from_below)
  have r: "min_from m (y # ys) = min_from ?m' ys" by simp
  consider "v = m" | "v = y" | "v \<in> set ys" using Cons.prems by auto
  then show ?case
  proof cases
    case 1
    show ?thesis
    proof (cases "float_lt y m")
      case True
      with below have "min_from y ys = y \<or> float_lt (min_from y ys) y" by simp
      then have "float_lt (min_from y ys) m" using True by (auto intro: float_lt_trans)
      then show ?thesis using 1 True r by (auto dest: float_lt_asym)
    next
      case False
      then show ?thesis using 1 Cons.IH [of m] r by simp
    qed
  next
    case 2
    show ?thesis
    proof (cases "float_lt y m")
      case True
      then show ?thesis using 2 Cons.IH [of y] r by simp
    next
      case False
      with below have "min_from m ys = m \<or> float_lt (min_from m ys) m" by simp
      then show ?thesis using 2 False r by (auto dest: float_lt_trans)
    qed
  next
    case 3
    then show ?thesis using Cons.IH [of ?m'] r by simp
  qed
qed


lemma column_ok_iff:
  "column_ok rows c \<longleftrightarrow> (\<forall>r\<in>set rows. cell r c = '''' \<or> py_float (cell r c) \<noteq> None)"
  by (induction rows) (auto simp: Let_def split: option.splits)

lemma strip_empty: "strip '''' = ''''"
  by (simp add: strip_def lstrip_def)

lemma py_float_empty: "py_float '''' = None"
  by code_simp

lemma fold_count: "fold (\<lambda>r cnt. if P r then cnt + 1 else cnt) rows (n::int) = n + int (length (filter P rows))"
  by (induction rows arbitrary: n) auto

lemma count_missing_eq: "count_missing rows c = int (length (filter (\<lambda>r. cell r c = '''') rows))"
  by (simp add: count_missing_def fold_count)

lemma dict_set_fresh: "k \<notin> set (keys d) \<Longrightarrow> dict_set d k v = d @ [(k, v)]"
  by (induction d) (auto simp: keys_def)

lemma map_of_dict_set: "map_of (dict_set d k v) = (map_of d)(k \<mapsto> v)"
  by (induction d) (auto simp: fun_eq_iff)

lemma keys_dict_set_mem: "k \<in> set (keys d) \<Longrightarrow> keys (dict_set d k v) = keys d"
  by (induction d) (force simp: keys_def)+

lemma missing_fold_map_of:
  "map_of (fold (\<lambda>c out. (let cnt = f c in if 0 < cnt then dict_set out c cnt else out)) ks out0) c =
     (if c \<in> set ks \<and> 0 < f c then Some (f c) else map_of out0 c)"
  by (induction ks arbitrary: out0) (auto simp: map_of_dict_set Let_def)

lemma missing_fold_distinct:
  "distinct ks \<Longrightarrow> set ks \<inter> set (keys out0) = {} \<Longrightarrow>
   fold (\<lambda>c out. (let cnt = f c in if 0 < cnt then dict_set out c cnt else out)) ks out0 =
     out0 @ map (\<lambda>c. (c, f c)) (filter (\<lambda>c. 0 < f c) ks)"
proof (induction ks arbitrary: out0)
  case Nil
  then show ?case by simp
next
  case (Cons k ks)
  show ?case
  proof (cases "0 < f k")
    case True
    have fresh: "k \<notin> set (keys out0)" using Cons.prems by auto
    have "set ks \<inter> set (keys (out0 @ [(k, f k)])) = {}"
      using Cons.prems by (auto simp: keys_def)
    with Cons True fresh show ?thesis by (simp add: dict_set_fresh Let_def)
  next
    case False
    with Cons show ?thesis by (simp add: Let_def)
  qed
qed

lemma first_not_in_find: "first_not_in cs nc = List.find (\<lambda>c. c \<notin> set nc) cs"
  by (induction cs) auto

lemma set_dict_set: "set (dict_set d k v) \<subseteq> insert (k, v) (set d)"
  by (induction d) (auto split: if_splits)

lemma missing_fold_positive:
  "\<forall>(c, n)\<in>set out0. 0 < n \<Longrightarrow>
   \<forall>(c, n)\<in>set (fold (\<lambda>c out. (let cnt = f c in if 0 < cnt then dict_set out c cnt else out)) ks out0). (0::int) < n"
proof (induction ks arbitrary: out0)
  case Nil
  then show ?case by simp
next
  case (Cons k ks)
  have "\<forall>(c, n)\<in>set (if 0 < f k then dict_set out0 k (f k) else out0). 0 < n"
    using Cons.prems set_dict_set [of out0 k "f k"] by auto
  from Cons.IH [OF this] show ?case by (simp add: Let_def)
qed

lemma collect_vals_eq:
  "collect_vals rows col = List.map_filter py_float (map (\<lambda>r. cell r col) rows)"
  by (induction rows) (auto simp: Let_def List.map_filter_simps py_float_empty split: option.splits)

lemma fround_two_53: "fround 9007199254740992 1 = Fin 4503599627370496 1"
  by code_simp

lemma pow2_53: "pow2 53 = 9007199254740992"
  by code_simp

lemma float_of_int_exact:
  assumes "0 < n" "n \<le> 2 ^ 53"
  shows "\<exists>m e. float_of_int n = Inr (Fin m e) \<and> m \<noteq> 0 \<and> py_int (Fin m e) = Inr n"
proof (cases "n < pow2 53")
  case True
  from blen_bounds [OF assms(1)]
  have b: "0 < blen n" and lo: "pow2 (blen n - 1) \<le> n" by auto
  have "pow2 (blen n - 1) < pow2 53" using lo True by linarith
  then have b53: "blen n \<le> 53" using pow2_less_imp [of "blen n - 1" 53] by simp
  define k where "k = 53 - blen n"
  have k0: "0 \<le> k" using b53 by (simp add: k_def)
  have e: "blen n - 53 = - k" by (simp add: k_def)
  have fr: "fround n 1 = Fin (n * pow2 k) (- k)"
    using fround_small_int [OF assms(1) True] by (simp add: k_def)
  have nz: "n * pow2 k \<noteq> 0" using assms(1) pow2_pos [of k] by simp
  have pi: "py_int (Fin (n * pow2 k) (- k)) = Inr n"
  proof (cases "k = 0")
    case True
    then show ?thesis by (simp add: py_int_def pow2_0)
  next
    case False
    then have c1: "\<not> 0 \<le> - k" using k0 by simp
    have c2: "\<not> n * pow2 k < 0" using assms(1) pow2_pos [of k] by (simp add: mult_less_0_iff)
    have c3: "n * pow2 k div pow2 k = n" using pow2_pos [of k] by simp
    show ?thesis unfolding py_int_def by (simp only: pyfloat.case c1 c2 c3 if_False minus_minus)
  qed
  show ?thesis using fr nz pi by (simp add: float_of_int_def)
next
  case False
  then have n: "n = 9007199254740992" using assms(2) by (simp add: pow2_53)
  have f: "float_of_int 9007199254740992 = Inr (Fin 4503599627370496 1)" by code_simp
  have p: "py_int (Fin 4503599627370496 1) = Inr 9007199254740992" by code_simp
  have "float_of_int n = Inr (Fin 4503599627370496 1) \<and> (4503599627370496::int) \<noteq> 0 \<and>
        py_int (Fin 4503599627370496 1) = Inr n"
    unfolding n using f p by simp
  then show ?thesis by blast
qed

lemma basic_stats_None_iff: "basic_stats cp rows col = Inr None \<longleftrightarrow> collect_vals rows col = []"
  by (auto simp: basic_stats_def Let_def ebind_def split: sum.splits)

lemma float_truediv_Fin:
  "m \<noteq> 0 \<Longrightarrow> float_truediv x (Fin m e) = Inr (float_quot x (Fin m e))"
  by (simp add: float_truediv_def is_zero_def)

lemma basic_stats_Some:
  assumes "collect_vals rows col \<noteq> []" "length (collect_vals rows col) \<le> 2 ^ 53"
  shows "\<exists>s. basic_stats cp rows col = Inr (Some s) \<and>
           float_of_int (int (length (collect_vals rows col))) = Inr (count s) \<and>
           py_int (count s) = Inr (int (length (collect_vals rows col))) \<and>
           avg s = float_quot (py_sum cp (collect_vals rows col)) (count s) \<and>
           py_min (collect_vals rows col) = Inr (minimum s) \<and>
           py_max (collect_vals rows col) = Inr (maximum s)"
proof -
  let ?vals = "collect_vals rows col"
  have pos: "0 < int (length ?vals)" using assms(1) by simp
  have le: "int (length ?vals) \<le> 2 ^ 53" using assms(2) by simp
  from float_of_int_exact [OF pos le] obtain m e where
    f: "float_of_int (int (length ?vals)) = Inr (Fin m e)" and nz: "m \<noteq> 0"
    and pi: "py_int (Fin m e) = Inr (int (length ?vals))" by blast
  have q: "float_truediv (py_sum cp ?vals) (Fin m e) = Inr (float_quot (py_sum cp ?vals) (Fin m e))"
    using nz by (rule float_truediv_Fin)
  obtain x xs where v: "?vals = x # xs" using assms(1) by (cases ?vals) auto
  have mn: "py_min ?vals = Inr (min_from x xs)" and mx: "py_max ?vals = Inr (max_from x xs)"
    by (simp_all add: py_min_def py_max_def v)
  have "basic_stats cp rows col =
        Inr (Some \<lparr>avg = float_quot (py_sum cp ?vals) (Fin m e), minimum = min_from x xs,
                    maximum = max_from x xs, count = Fin m e\<rparr>)"
    using assms(1) f q mn mx by (simp add: basic_stats_def Let_def ebind_def)
  then show ?thesis using f pi mn mx by simp
qed

lemma min_from_NaN: "min_from m ys = NaN \<longleftrightarrow> m = NaN"
proof (induction ys arbitrary: m)
  case Nil
  then show ?case by simp
next
  case (Cons y ys)
  have "(if float_lt y m then y else m) = NaN \<longleftrightarrow> m = NaN"
    by (auto simp: float_lt_iff)
  with Cons [of "if float_lt y m then y else m"] show ?case by simp
qed

lemma max_from_NaN: "max_from m ys = NaN \<longleftrightarrow> m = NaN"
proof (induction ys arbitrary: m)
  case Nil
  then show ?case by simp
next
  case (Cons y ys)
  have "(if float_lt m y then y else m) = NaN \<longleftrightarrow> m = NaN"
    by (auto simp: float_lt_iff)
  with Cons [of "if float_lt m y then y else m"] show ?case by simp
qed

lemma min_le_max_iff:
  assumes "py_min vals = Inr lo" and "py_max vals = Inr hi"
  shows "float_le lo hi \<longleftrightarrow> hd vals \<noteq> NaN"
proof -
  from assms obtain x xs where v: "vals = x # xs" and lo: "lo = min_from x xs" and hi: "hi = max_from x xs"
    by (cases vals) (auto simp: py_min_def py_max_def)
  have "hi \<in> set (x # xs)" unfolding hi by (rule max_from_mem)
  then have "\<not> float_lt hi lo" unfolding lo by (rule min_from_least)
  then show ?thesis by (simp add: float_le_def lo hi v min_from_NaN max_from_NaN)
qed



lemma missing_values_map_of:
  "map_of (missing_values rows) c =
     (if rows \<noteq> [] \<and> c \<in> set (keys (hd rows)) \<and> 0 < count_missing rows c
      then Some (count_missing rows c) else None)"
  by (cases rows) (simp_all add: missing_values_def missing_fold_map_of)

lemma collect_vals_length:
  "column_ok rows c \<Longrightarrow> int (length (collect_vals rows c)) = int (length rows) - count_missing rows c"
  by (induction rows) (auto simp: count_missing_eq Let_def split: option.splits if_splits)

lemma detect_numeric_columns_mem:
  "c \<in> set (detect_numeric_columns rows) \<longleftrightarrow> rows \<noteq> [] \<and> c \<in> set (keys (hd rows)) \<and> column_ok rows c"
  by (cases rows) (simp_all add: detect_numeric_columns_def del: column_ok.simps)

lemma count_missing_le: "count_missing rows c \<le> int (length rows)"
  by (simp add: count_missing_eq)

lemma count_missing_nonneg: "0 \<le> count_missing rows c"
  by (simp add: count_missing_eq)

lemma missing_get:
  "rows \<noteq> [] \<Longrightarrow> c \<in> set (keys (hd rows)) \<Longrightarrow> dict_get (missing_values rows) c 0 = count_missing rows c"
  using count_missing_nonneg [of rows c] by (auto simp: dict_get_def missing_values_map_of)

lemma numeric_lines_shape:
  "numeric_lines sm cs = Inr ls \<Longrightarrow> \<forall>l\<in>set ls. \<exists>c s n. l = stat_line c s n"
proof (induction cs arbitrary: ls)
  case Nil
  then show ?case by simp
next
  case (Cons c cs)
  show ?case
  proof (cases "sm c")
    case None
    with Cons show ?thesis by simp
  next
    case (Some s)
    with Cons.prems obtain n rest where "numeric_lines sm cs = Inr rest" and "ls = stat_line c s n # rest"
      by (auto simp: ebind_def split: sum.splits)
    with Cons.IH [of rest] show ?thesis by auto
  qed
qed

lemma stat_line_not_categorical: "\<not> is_categorical_line (stat_line c s n)"
  by (simp add: is_categorical_line_def stat_line_def)

lemma missing_lines_not_categorical: "l \<in> set (missing_lines ms) \<Longrightarrow> \<not> is_categorical_line l"
  by (auto simp: missing_lines_def is_categorical_line_def)

lemma divider_not_categorical: "\<not> is_categorical_line divider"
  by (simp add: is_categorical_line_def divider_def numeral_eq_Suc)

lemma notes_lines_not_categorical:
  "l \<in> set (notes_lines cols None ct ms) \<Longrightarrow> \<not> is_categorical_line l"
  using divider_not_categorical
  by (auto simp: notes_lines_def truthy_def is_categorical_line_def split: if_splits)

lemma categorical_lines_None: "categorical_lines None ct = []"
  by (simp add: categorical_lines_def truthy_def)

lemma report_lines_no_category:
  assumes "report_lines file_name n cols sm None ct ms = Inr ls" and "l \<in> set ls"
  shows "\<not> is_categorical_line l"
proof -
  from assms(1) obtain sec where
    sec: "(if cols \<noteq> [] then ebind (numeric_lines sm cols) (\<lambda>ls. Inr (''Numeric columns summary:'' # ls @ ['''']))
          else Inr [''No numeric columns detected.'', '''']) = Inr sec"
    and ls: "ls = [''DATA INSIGHTS REPORT'', divider, ''Source file: '' @ file_name,
             ''Total rows: '' @ str_int n, ''''] @ sec @ categorical_lines None ct @
            missing_lines ms @ notes_lines cols None ct ms"
    by (auto simp: report_lines_def ebind_def split: sum.splits)
  have secl: "\<forall>x\<in>set sec. \<not> is_categorical_line x"
  proof (cases "cols = []")
    case True
    with sec show ?thesis by (auto simp: is_categorical_line_def)
  next
    case False
    with sec obtain nl where nl: "numeric_lines sm cols = Inr nl" and s: "sec = ''Numeric columns summary:'' # nl @ ['''']"
      by (auto simp: ebind_def split: sum.splits)
    from numeric_lines_shape [OF nl] have "\<forall>x\<in>set nl. \<not> is_categorical_line x"
      using stat_line_not_categorical by auto
    then show ?thesis unfolding s by (auto simp: is_categorical_line_def)
  qed
  have hd: "\<forall>x\<in>set [''DATA INSIGHTS REPORT'', divider, ''Source file: '' @ file_name,
             ''Total rows: '' @ str_int n, '''']. \<not> is_categorical_line x"
    using divider_not_categorical by (auto simp: is_categorical_line_def)
  from assms(2) show ?thesis
    unfolding ls categorical_lines_None
    using hd secl missing_lines_not_categorical notes_lines_not_categorical by auto
qed

lemma join_lines_Cons2: "join_lines (a # b # ls) = a @ newline # join_lines (b # ls)"
  by simp

lemma join_lines_snoc: "xs \<noteq> [] \<Longrightarrow> join_lines (xs @ [l]) = join_lines xs @ newline # l"
  by (induction xs rule: join_lines.induct) auto

lemma numeric_lines_total:
  "\<forall>c\<in>set cs. \<forall>s. sm c = Some s \<longrightarrow> (\<exists>n. py_int (count s) = Inr n) \<Longrightarrow>
   numeric_lines sm cs =
     Inr (concat (map (\<lambda>c. case sm c of
                              None \<Rightarrow> []
                            | Some s \<Rightarrow> (case py_int (count s) of Inr n \<Rightarrow> [stat_line c s n] | Inl e \<Rightarrow> []))
                      cs))"
proof (induction cs)
  case Nil
  then show ?case by simp
next
  case (Cons c cs)
  then have ih: "numeric_lines sm cs =
     Inr (concat (map (\<lambda>c. case sm c of
                              None \<Rightarrow> []
                            | Some s \<Rightarrow> (case py_int (count s) of Inr n \<Rightarrow> [stat_line c s n] | Inl e \<Rightarrow> []))
                      cs))" by simp
  show ?case
  proof (cases "sm c")
    case None
    then show ?thesis using ih by simp
  next
    case (Some s)
    with Cons.prems obtain n where "py_int (count s) = Inr n" by auto
    then show ?thesis using Some ih by (simp add: ebind_def)
  qed
qed

lemma notes_lines_last: "\<exists>pre. notes_lines cols cc ct ms = pre @ [divider] \<and> pre \<noteq> []"
  by (simp add: notes_lines_def)

lemma join_lines_Cons_ne: "ys \<noteq> [] \<Longrightarrow> join_lines (a # ys) = a @ newline # join_lines ys"
  by (cases ys) simp_all

subsection \<open>Evaluations shared by the examples\<close>

lemma scenario_amount_vals:
  "List.map_filter py_float (map (\<lambda>r. cell r ''amount'') scenario) =
     [Fin 5629499534213120 (- 49), Fin 5629499534213120 (- 48)]"
  by code_simp


lemma scenario_amount_stats:
  "basic_stats Since_3_12 scenario ''amount'' =
     Inr (Some \<lparr>avg = Fin 8444249301319680 (- 49), minimum = Fin 5629499534213120 (- 49),
                 maximum = Fin 5629499534213120 (- 48), count = Fin 4503599627370496 (- 51)\<rparr>)"
  by code_simp

lemma scenario_amount_numeric: "detect_numeric_columns scenario = [''amount'']"
  by code_simp

lemma scenario_missing: "missing_values scenario = [(''amount'', 1)]"
  by code_simp

lemma tenths_vals:
  "List.map_filter py_float (map (\<lambda>r. cell r ''a'') tenths) =
     [Fin 7205759403792794 (- 56), Fin 7205759403792794 (- 56), Fin 7205759403792794 (- 56)]"
  by code_simp

lemma tenths_stats_before:
  "basic_stats Before_3_12 tenths ''a'' =
     Inr (Some \<lparr>avg = Fin 7205759403792795 (- 56), minimum = Fin 7205759403792794 (- 56),
                 maximum = Fin 7205759403792794 (- 56), count = Fin 6755399441055744 (- 51)\<rparr>)"
  by code_simp

lemma tenths_stats_since:
  "basic_stats Since_3_12 tenths ''a'' =
     Inr (Some \<lparr>avg = Fin 7205759403792795 (- 56), minimum = Fin 7205759403792794 (- 56),
                 maximum = Fin 7205759403792794 (- 56), count = Fin 6755399441055744 (- 51)\<rparr>)"
  by code_simp

lemma tenths_numeric: "detect_numeric_columns tenths = [''a'']"
  by code_simp

lemma numeric_only_report_lines:
  "report_lines ''sales_data.csv'' 1 [''x''] one_stats None None [] = Inr numeric_only_report"
  by code_simp

section \<open>Column classification\<close>

text \<open>
  C1 (as amended). For every dataset, \<open>detect_numeric_columns\<close> returns, in header order (the order
  of the keys of the first record), exactly the columns in which every cell that is non-empty
  after stripping surrounding whitespace parses as a float. A cell that is empty or holds only
  whitespace never disqualifies a column, so a column whose cells are all blank is numeric; a
  cell that is non-blank after stripping and fails float parsing disqualifies the column. The
  empty dataset yields the empty list.
\<close>

theorem detect_numeric_columns_spec:
  "detect_numeric_columns rows =
     (case rows of
        [] \<Rightarrow> []
      | r0 # rest \<Rightarrow>
          filter (\<lambda>c. \<forall>r\<in>set rows. cell r c = '''' \<or> py_float (cell r c) \<noteq> None) (keys r0))"
proof (cases rows)
  case Nil
  then show ?thesis by (simp add: detect_numeric_columns_def)
next
  case (Cons r0 rest)
  have "filter (column_ok rows) (keys r0) =
        filter (\<lambda>c. \<forall>r\<in>set rows. cell r c = '''' \<or> py_float (cell r c) \<noteq> None) (keys r0)"
    by (rule filter_cong) (simp_all only: column_ok_iff)
  with Cons show ?thesis by (simp only: detect_numeric_columns_def list.case)
qed

theorem detect_numeric_columns_spec_witness:
  "detect_numeric_columns scenario = [''amount''] \<and>
   filter (\<lambda>c. \<forall>r\<in>set scenario. cell r c = '''' \<or> py_float (cell r c) \<noteq> None) [''region'', ''amount'']
     = [''amount'']"
proof -
  have d: "detect_numeric_columns scenario = [''amount'']" by code_simp
  have k: "scenario = [(''region'', ''east''), (''amount'', ''10'')] # tl scenario"
    by (simp add: scenario_def)
  have "detect_numeric_columns scenario =
        filter (\<lambda>c. \<forall>r\<in>set scenario. cell r c = '''' \<or> py_float (cell r c) \<noteq> None)
          (keys [(''region'', ''east''), (''amount'', ''10'')])"
    using detect_numeric_columns_spec [of scenario] by (subst (asm) (3) k) (simp only: list.case)
  then show ?thesis using d by (simp add: keys_def)
qed

text \<open>
  The claim as worded (every non-empty cell parses) fails on a cell holding one space: the cell
  is not the empty string and \<open>float(" ")\<close> raises, yet the column is classified numeric.
\<close>

theorem detect_numeric_columns_blank_cell:
  "detect_numeric_columns blank_row = [''a''] \<and> numeric_columns_as_stated blank_row = []"
  by code_simp

section \<open>Counts and the order of the statistics\<close>

text \<open>
  C2 (as amended). For every dataset of at most \<open>2^53\<close> rows and every column classified numeric,
  \<open>basic_stats\<close> returns without error; it returns nothing exactly when the number of rows minus
  the missing-value count of the column is zero. Otherwise that difference \<open>n\<close> is positive, the
  reported count is \<open>float(n)\<close> and converts back to \<open>n\<close>, the reported average is the float
  quotient of the float sum computed by the builtin \<open>sum\<close> by that count, and \<open>min \<le> max\<close> holds
  exactly when the first parsed value is not NaN, hence whenever no parsed value is NaN. The
  average need not lie between \<open>min\<close> and \<open>max\<close>.
\<close>

theorem basic_stats_count_and_order:
  assumes "c \<in> set (detect_numeric_columns rows)" and "length rows \<le> 2 ^ 53"
    and "vals = List.map_filter py_float (map (\<lambda>r. cell r c) rows)"
    and "n = int (length rows) - dict_get (missing_values rows) c 0"
  shows "(\<exists>r. basic_stats cp rows c = Inr r) \<and>
         (basic_stats cp rows c = Inr None \<longleftrightarrow> n = 0) \<and>
         (\<forall>s. basic_stats cp rows c = Inr (Some s) \<longrightarrow>
              0 < n \<and> float_of_int n = Inr (count s) \<and> py_int (count s) = Inr n \<and>
              avg s = float_quot (py_sum cp vals) (count s) \<and>
              (float_le (minimum s) (maximum s) \<longleftrightarrow> hd vals \<noteq> NaN))"
proof -
  have v: "vals = collect_vals rows c" using assms(3) by (simp add: collect_vals_eq)
  from assms(1) have ne: "rows \<noteq> []" and k: "c \<in> set (keys (hd rows))" and ok: "column_ok rows c"
    by (simp_all add: detect_numeric_columns_mem)
  have g: "dict_get (missing_values rows) c 0 = count_missing rows c" using ne k by (rule missing_get)
  have len: "int (length vals) = n"
    unfolding v assms(4) using collect_vals_length [OF ok] g by simp
  have le: "length vals \<le> 2 ^ 53"
  proof -
    have "int (length vals) \<le> int (length rows)"
      using len g count_missing_nonneg [of rows c] unfolding assms(4) by simp
    then show ?thesis using assms(2) by simp
  qed
  have none: "basic_stats cp rows c = Inr None \<longleftrightarrow> n = 0"
  proof -
    have "vals = [] \<longleftrightarrow> int (length vals) = 0" by simp
    then show ?thesis unfolding basic_stats_None_iff v [symmetric] len .
  qed
  have some: "vals \<noteq> [] \<Longrightarrow> \<exists>s. basic_stats cp rows c = Inr (Some s) \<and>
           float_of_int (int (length vals)) = Inr (count s) \<and>
           py_int (count s) = Inr (int (length vals)) \<and>
           avg s = float_quot (py_sum cp vals) (count s) \<and>
           py_min vals = Inr (minimum s) \<and> py_max vals = Inr (maximum s)"
    using basic_stats_Some [of rows c cp] le unfolding v by blast
  have ex: "\<exists>r. basic_stats cp rows c = Inr r"
  proof (cases "vals = []")
    case True
    then have "basic_stats cp rows c = Inr None" using basic_stats_None_iff [of cp rows c] v by simp
    then show ?thesis by blast
  next
    case False
    from some [OF this] show ?thesis by blast
  qed
  have all: "\<forall>s. basic_stats cp rows c = Inr (Some s) \<longrightarrow>
              0 < n \<and> float_of_int n = Inr (count s) \<and> py_int (count s) = Inr n \<and>
              avg s = float_quot (py_sum cp vals) (count s) \<and>
              (float_le (minimum s) (maximum s) \<longleftrightarrow> hd vals \<noteq> NaN)"
  proof (intro allI impI)
    fix s assume bs: "basic_stats cp rows c = Inr (Some s)"
    then have nonempty: "vals \<noteq> []" using basic_stats_None_iff [of cp rows c] v by auto
    from some [OF this] bs have cnt: "float_of_int (int (length vals)) = Inr (count s)"
      and pi: "py_int (count s) = Inr (int (length vals))"
      and av: "avg s = float_quot (py_sum cp vals) (count s)"
      and mn: "py_min vals = Inr (minimum s)" and mx: "py_max vals = Inr (maximum s)" by auto
    have pos: "0 < int (length vals)" using nonempty by simp
    from min_le_max_iff [OF mn mx] have ord: "float_le (minimum s) (maximum s) \<longleftrightarrow> hd vals \<noteq> NaN" .
    show "0 < n \<and> float_of_int n = Inr (count s) \<and> py_int (count s) = Inr n \<and>
              avg s = float_quot (py_sum cp vals) (count s) \<and>
              (float_le (minimum s) (maximum s) \<longleftrightarrow> hd vals \<noteq> NaN)"
      using cnt pi av pos ord unfolding len by blast
  qed
  from ex none all show ?thesis by blast
qed

theorem basic_stats_count_and_order_witness:
  "''amount'' \<in> set (detect_numeric_columns scenario) \<and> length scenario \<le> 2 ^ 53 \<and>
   List.map_filter py_float (map (\<lambda>r. cell r ''amount'') scenario) =
     [Fin 5629499534213120 (- 49), Fin 5629499534213120 (- 48)] \<and>
   int (length scenario) - dict_get (missing_values scenario) ''amount'' 0 = 2 \<and>
   basic_stats Since_3_12 scenario ''amount'' =
     Inr (Some \<lparr>avg = Fin 8444249301319680 (- 49), minimum = Fin 5629499534213120 (- 49),
                 maximum = Fin 5629499534213120 (- 48), count = Fin 4503599627370496 (- 51)\<rparr>) \<and>
   float_of_int 2 = Inr (Fin 4503599627370496 (- 51)) \<and>
   py_int (Fin 4503599627370496 (- 51)) = Inr 2 \<and>
   float_le (Fin 5629499534213120 (- 49)) (Fin 5629499534213120 (- 48))"
proof -
  have a: "''amount'' \<in> set (detect_numeric_columns scenario)" by (simp add: scenario_amount_numeric)
  have l: "length scenario \<le> 2 ^ 53" by (simp add: scenario_def)
  note v = scenario_amount_vals [symmetric]
  have n: "2 = int (length scenario) - dict_get (missing_values scenario) ''amount'' 0"
    by (simp add: scenario_missing dict_get_def) (simp add: scenario_def)
  note b = scenario_amount_stats
  from basic_stats_count_and_order [OF a l v n, of Since_3_12] b
  have "float_of_int 2 = Inr (Fin 4503599627370496 (- 51)) \<and>
        py_int (Fin 4503599627370496 (- 51)) = Inr 2 \<and>
        float_le (Fin 5629499534213120 (- 49)) (Fin 5629499534213120 (- 48))" by auto
  then show ?thesis using a l v [symmetric] n [symmetric] b by blast
qed

text \<open>
  The claim as worded also places the average between the minimum and the maximum. Three cells
  \<open>0.1\<close> give the float sum \<open>0.30000000000000004\<close> under both generations of \<open>sum\<close>; its quotient
  by 3 is \<open>0.10000000000000002\<close>, one unit in the last place above the maximum \<open>0.1\<close>.
\<close>

theorem basic_stats_avg_above_max:
  "''a'' \<in> set (detect_numeric_columns tenths) \<and>
   basic_stats Before_3_12 tenths ''a'' =
     Inr (Some \<lparr>avg = Fin 7205759403792795 (- 56), minimum = Fin 7205759403792794 (- 56),
                 maximum = Fin 7205759403792794 (- 56), count = Fin 6755399441055744 (- 51)\<rparr>) \<and>
   basic_stats Since_3_12 tenths ''a'' =
     Inr (Some \<lparr>avg = Fin 7205759403792795 (- 56), minimum = Fin 7205759403792794 (- 56),
                 maximum = Fin 7205759403792794 (- 56), count = Fin 6755399441055744 (- 51)\<rparr>) \<and>
   py_int (Fin 6755399441055744 (- 51)) = Inr 3 \<and>
   \<not> float_le (Fin 7205759403792795 (- 56)) (Fin 7205759403792794 (- 56))"
proof -
  have a: "''a'' \<in> set (detect_numeric_columns tenths)" by (simp add: tenths_numeric)
  have p: "py_int (Fin 6755399441055744 (- 51)) = Inr 3" by code_simp
  have o: "\<not> float_le (Fin 7205759403792795 (- 56)) (Fin 7205759403792794 (- 56))" by code_simp
  from a tenths_stats_before tenths_stats_since p o show ?thesis by blast
qed

section \<open>Missing values\<close>

text \<open>
  C3 (as amended). For every dataset, \<open>missing_values\<close> maps each column of the first record to
  the number of rows whose cell for that column is empty after stripping surrounding whitespace
  (a key absent from a row reads as the empty string). A column is in the mapping if and only if
  that number is strictly positive, so no entry is zero; the entries follow header order; the
  empty dataset gives the empty mapping.
\<close>

theorem missing_values_spec:
  "missing_values [] = [] \<and>
   map_of (missing_values rows) c =
     (if rows \<noteq> [] \<and> c \<in> set (keys (hd rows)) \<and> 0 < length (filter (\<lambda>r. cell r c = '''') rows)
      then Some (int (length (filter (\<lambda>r. cell r c = '''') rows))) else None) \<and>
   (\<forall>(k, n)\<in>set (missing_values rows). 0 < n) \<and>
   (rows \<noteq> [] \<and> distinct (keys (hd rows)) \<longrightarrow>
      missing_values rows =
        map (\<lambda>k. (k, int (length (filter (\<lambda>r. cell r k = '''') rows))))
            (filter (\<lambda>k. 0 < length (filter (\<lambda>r. cell r k = '''') rows)) (keys (hd rows))))"
proof (cases rows)
  case Nil
  then show ?thesis by (simp add: missing_values_def)
next
  case (Cons r0 rest)
  have m: "missing_values rows =
      fold (\<lambda>c out. (let cnt = count_missing rows c in if 0 < cnt then dict_set out c cnt else out)) (keys r0) []"
    using Cons by (simp add: missing_values_def)
  have a: "missing_values [] = []" by (simp add: missing_values_def)
  have b: "map_of (missing_values rows) c =
     (if rows \<noteq> [] \<and> c \<in> set (keys (hd rows)) \<and> 0 < length (filter (\<lambda>r. cell r c = '''') rows)
      then Some (int (length (filter (\<lambda>r. cell r c = '''') rows))) else None)"
    unfolding m missing_fold_map_of using Cons by (simp add: count_missing_eq)
  have p: "\<forall>(k, n)\<in>set (missing_values rows). 0 < n"
    unfolding m by (rule missing_fold_positive) simp
  have d: "rows \<noteq> [] \<and> distinct (keys (hd rows)) \<longrightarrow>
      missing_values rows =
        map (\<lambda>k. (k, int (length (filter (\<lambda>r. cell r k = '''') rows))))
            (filter (\<lambda>k. 0 < length (filter (\<lambda>r. cell r k = '''') rows)) (keys (hd rows)))"
  proof
    assume "rows \<noteq> [] \<and> distinct (keys (hd rows))"
    then have dist: "distinct (keys r0)" using Cons by simp
    have hd: "hd rows = r0" using Cons by simp
    have "set (keys r0) \<inter> set (keys ([] :: int dict)) = {}" by (simp add: keys_def)
    from missing_fold_distinct [OF dist this, of "count_missing rows"]
    show "missing_values rows =
        map (\<lambda>k. (k, int (length (filter (\<lambda>r. cell r k = '''') rows))))
            (filter (\<lambda>k. 0 < length (filter (\<lambda>r. cell r k = '''') rows)) (keys (hd rows)))"
      unfolding m hd by (simp add: count_missing_eq)
  qed
  from a b p d show ?thesis by blast
qed

theorem missing_values_spec_witness:
  "scenario \<noteq> [] \<and> distinct (keys (hd scenario)) \<and> missing_values scenario = [(''amount'', 1)] \<and>
   map_of (missing_values scenario) ''amount'' = Some 1 \<and>
   map (\<lambda>k. (k, int (length (filter (\<lambda>r. cell r k = '''') scenario))))
       (filter (\<lambda>k. 0 < length (filter (\<lambda>r. cell r k = '''') scenario)) (keys (hd scenario)))
     = [(''amount'', 1)]"
proof -
  have h: "scenario \<noteq> [] \<and> distinct (keys (hd scenario))" by code_simp
  have m: "missing_values scenario = [(''amount'', 1)]" by code_simp
  have mo: "map_of (missing_values scenario) ''amount'' = Some 1" by code_simp
  from missing_values_spec [of scenario "''amount''"] h
  have d: "missing_values scenario =
        map (\<lambda>k. (k, int (length (filter (\<lambda>r. cell r k = '''') scenario))))
            (filter (\<lambda>k. 0 < length (filter (\<lambda>r. cell r k = '''') scenario)) (keys (hd scenario)))"
    by blast
  from trans [OF d [symmetric] m] h m mo show ?thesis by blast
qed

text \<open>
  The claim as worded counts the cells that are the empty string. A cell holding one space is
  not the empty string, yet it is counted as missing.
\<close>

theorem missing_values_blank_cell:
  "missing_values blank_row = [(''a'', 1)] \<and> missing_values_as_stated blank_row = []"
  by code_simp

section \<open>Statistics of a column\<close>



text \<open>
  The claim as worded calls the average the arithmetic mean of the parsed values. Three cells
  \<open>0.1\<close> parse to the same double, which is then their exact mean; under both generations of
  \<open>sum\<close> the reported average is the next double above it.
\<close>

theorem basic_stats_avg_not_mean:
  "List.map_filter py_float (map (\<lambda>r. cell r ''a'') tenths) =
     [Fin 7205759403792794 (- 56), Fin 7205759403792794 (- 56), Fin 7205759403792794 (- 56)] \<and>
   map_sum id (map_option avg) (basic_stats Before_3_12 tenths ''a'') = Inr (Some (Fin 7205759403792795 (- 56))) \<and>
   map_sum id (map_option avg) (basic_stats Since_3_12 tenths ''a'') = Inr (Some (Fin 7205759403792795 (- 56))) \<and>
   is_arithmetic_mean (Fin 7205759403792794 (- 56))
     [Fin 7205759403792794 (- 56), Fin 7205759403792794 (- 56), Fin 7205759403792794 (- 56)] \<and>
   \<not> is_arithmetic_mean (Fin 7205759403792795 (- 56))
     [Fin 7205759403792794 (- 56), Fin 7205759403792794 (- 56), Fin 7205759403792794 (- 56)]"
proof -
  have m: "is_arithmetic_mean (Fin 7205759403792794 (- 56))
     [Fin 7205759403792794 (- 56), Fin 7205759403792794 (- 56), Fin 7205759403792794 (- 56)]" by code_simp
  have n: "\<not> is_arithmetic_mean (Fin 7205759403792795 (- 56))
     [Fin 7205759403792794 (- 56), Fin 7205759403792794 (- 56), Fin 7205759403792794 (- 56)]" by code_simp
  have b: "map_sum id (map_option avg) (basic_stats Before_3_12 tenths ''a'') = Inr (Some (Fin 7205759403792795 (- 56)))"
    by (simp add: tenths_stats_before)
  have s: "map_sum id (map_option avg) (basic_stats Since_3_12 tenths ''a'') = Inr (Some (Fin 7205759403792795 (- 56)))"
    by (simp add: tenths_stats_since)
  from tenths_vals b s m n show ?thesis by blast
qed

section \<open>The first categorical column\<close>

text \<open>
  C5. For every dataset, \<open>first_categorical_column\<close> returns the first key of the first record, in
  header order, that is not in the list of numeric columns; it returns nothing exactly when the
  dataset is empty or every column is in that list. When it returns nothing, a report built with
  that result has no categorical section: the section contributes no line, and no line of the
  report is a most-frequent-value line, a no-frequent-value line or a dominant-category note.
\<close>

theorem first_categorical_column_spec:
  "(first_categorical_column rows nc = None \<longleftrightarrow> rows = [] \<or> set (keys (hd rows)) \<subseteq> set nc) \<and>
   (\<forall>c. first_categorical_column rows nc = Some c \<longleftrightarrow>
      rows \<noteq> [] \<and>
      (\<exists>i<length (keys (hd rows)). keys (hd rows) ! i = c \<and> c \<notin> set nc \<and>
                                   (\<forall>j<i. keys (hd rows) ! j \<in> set nc))) \<and>
   (first_categorical_column rows nc = None \<longrightarrow>
      (\<forall>file_name n cols sm ct ms ls.
         report_lines file_name n cols sm (first_categorical_column rows nc) ct ms = Inr ls \<longrightarrow>
         categorical_lines (first_categorical_column rows nc) ct = [] \<and>
         (\<forall>l\<in>set ls. \<not> is_categorical_line l)))"
proof -
  have f: "first_categorical_column rows nc =
           (case rows of [] \<Rightarrow> None | r0 # rest \<Rightarrow> List.find (\<lambda>c. c \<notin> set nc) (keys r0))"
    by (cases rows) (simp_all add: first_categorical_column_def first_not_in_find)
  have a: "first_categorical_column rows nc = None \<longleftrightarrow> rows = [] \<or> set (keys (hd rows)) \<subseteq> set nc"
    unfolding f by (cases rows) (auto simp: find_None_iff)
  have b: "\<forall>c. first_categorical_column rows nc = Some c \<longleftrightarrow>
      rows \<noteq> [] \<and>
      (\<exists>i<length (keys (hd rows)). keys (hd rows) ! i = c \<and> c \<notin> set nc \<and>
                                   (\<forall>j<i. keys (hd rows) ! j \<in> set nc))"
    unfolding f by (cases rows) (auto simp: find_Some_iff)
  have c: "first_categorical_column rows nc = None \<longrightarrow>
      (\<forall>file_name n cols sm ct ms ls.
         report_lines file_name n cols sm (first_categorical_column rows nc) ct ms = Inr ls \<longrightarrow>
         categorical_lines (first_categorical_column rows nc) ct = [] \<and>
         (\<forall>l\<in>set ls. \<not> is_categorical_line l))"
    using report_lines_no_category categorical_lines_None by auto
  from a b c show ?thesis by blast
qed

theorem first_categorical_column_spec_witness:
  "first_categorical_column all_numeric [''x''] = None \<and>
   set (keys (hd all_numeric)) \<subseteq> set [''x''] \<and>
   first_categorical_column scenario [''amount''] = Some ''region'' \<and>
   report_lines ''sales_data.csv'' 1 [''x''] one_stats (first_categorical_column all_numeric [''x'']) None []
     = Inr numeric_only_report \<and>
   list_all (\<lambda>l. \<not> is_categorical_line l) numeric_only_report"
proof -
  have n: "first_categorical_column all_numeric [''x''] = None" by code_simp
  have k: "set (keys (hd all_numeric)) \<subseteq> set [''x'']" by code_simp
  have s: "first_categorical_column scenario [''amount''] = Some ''region''" by code_simp
  have r: "report_lines ''sales_data.csv'' 1 [''x''] one_stats (first_categorical_column all_numeric [''x'']) None []
     = Inr numeric_only_report"
    unfolding n by (rule numeric_only_report_lines)
  from first_categorical_column_spec [of all_numeric "[''x'']"] n r
  have "\<forall>l\<in>set numeric_only_report. \<not> is_categorical_line l" by blast
  then have "list_all (\<lambda>l. \<not> is_categorical_line l) numeric_only_report" by (simp add: list_all_iff)
  with n k s r show ?thesis by blast
qed

section \<open>Missing input file\<close>

text \<open>
  C6. When the input CSV file does not exist, \<open>main\<close> returns normally (no exception, hence no
  distinct exit status); the only effect is one printed line \<open>File not found: {path}\<close>. The file
  system is left as it was, so no report is written.
\<close>

theorem main_missing_input:
  assumes "files w (csv_path_of here) = None"
  shows "main cp reader here w = Inr (w\<lparr>stdout := stdout w @ [''File not found: '' @ csv_path_of here]\<rparr>)"
  using assms by (simp add: main_def print_line_def)

theorem main_missing_input_witness:
  "files empty_world (csv_path_of ''/app'') = None \<and>
   main Since_3_12 demo_reader ''/app'' empty_world =
     Inr \<lparr>files = Map.empty, stdout = [''File not found: /app/data/sales_data.csv'']\<rparr>"
  using main_missing_input [of empty_world "''/app''" Since_3_12 demo_reader]
  by (simp add: empty_world_def csv_path_of_def path_join_def)

section \<open>Layout of the report\<close>

text \<open>
  C8. For every set of artifacts whose present statistics carry a count that converts to an
  integer (every count computed by \<open>basic_stats\<close> does), \<open>report_lines\<close> returns the lines of the
  report. The text, the lines joined by newlines, begins with the title line
  \<open>DATA INSIGHTS REPORT\<close> followed by a line of exactly 32 dashes, and ends with a newline followed
  by exactly 32 dashes, with nothing after them. When there are numeric columns, the summary
  header is followed by one line per column that has statistics, in the format
  \<open>  {col}: avg={avg:.2f}, min={min}, max={max} (n={count})\<close>; columns without statistics
  contribute no line.
\<close>

theorem report_lines_layout:
  assumes "\<forall>c\<in>set numeric_cols. \<forall>s. stats_map c = Some s \<longrightarrow> (\<exists>n. py_int (count s) = Inr n)"
  shows "\<exists>ls body rest mid.
           report_lines file_name rows_count numeric_cols stats_map cat_col cat_top missing = Inr ls \<and>
           ls = [''DATA INSIGHTS REPORT'', replicate 32 CHR ''-'', ''Source file: '' @ file_name,
                 ''Total rows: '' @ str_int rows_count, ''''] @ body @ rest @ [replicate 32 CHR ''-''] \<and>
           (numeric_cols \<noteq> [] \<longrightarrow>
              body = ''Numeric columns summary:'' #
                concat (map (\<lambda>c. case stats_map c of
                     None \<Rightarrow> []
                   | Some s \<Rightarrow>
                       (case py_int (count s) of
                          Inr n \<Rightarrow> [''  '' @ c @ '': avg='' @ format_2f (avg s) @ '', min='' @
                                    float_repr (minimum s) @ '', max='' @ float_repr (maximum s) @
                                    '' (n='' @ str_int n @ '')'']
                        | Inl e \<Rightarrow> []))
                   numeric_cols) @ ['''']) \<and>
           join_lines ls = ''DATA INSIGHTS REPORT'' @ [newline] @ replicate 32 CHR ''-'' @ [newline] @ mid @
                           [newline] @ replicate 32 CHR ''-''"
proof -
  define body where "body =
     (if numeric_cols \<noteq> [] then
        ''Numeric columns summary:'' #
          concat (map (\<lambda>c. case stats_map c of
                     None \<Rightarrow> []
                   | Some s \<Rightarrow> (case py_int (count s) of Inr n \<Rightarrow> [stat_line c s n] | Inl e \<Rightarrow> []))
                   numeric_cols) @ ['''']
      else [''No numeric columns detected.'', ''''])"
  obtain pre where pre: "notes_lines numeric_cols cat_col cat_top missing = pre @ [divider]"
    using notes_lines_last by blast
  define rest where "rest = categorical_lines cat_col cat_top @ missing_lines missing @ pre"
  define ls where "ls = [''DATA INSIGHTS REPORT'', replicate 32 CHR ''-'', ''Source file: '' @ file_name,
                 ''Total rows: '' @ str_int rows_count, ''''] @ body @ rest @ [replicate 32 CHR ''-'']"
  define mid where "mid = join_lines ([''Source file: '' @ file_name, ''Total rows: '' @ str_int rows_count, ''''] @ body @ rest)"
  have d: "divider = replicate 32 CHR ''-''" by (simp add: divider_def)
  have r: "report_lines file_name rows_count numeric_cols stats_map cat_col cat_top missing = Inr ls"
    using numeric_lines_total [OF assms]
    by (simp add: report_lines_def ebind_def ls_def body_def rest_def pre d)
  have b: "numeric_cols \<noteq> [] \<longrightarrow>
              body = ''Numeric columns summary:'' #
                concat (map (\<lambda>c. case stats_map c of
                     None \<Rightarrow> []
                   | Some s \<Rightarrow>
                       (case py_int (count s) of
                          Inr n \<Rightarrow> [''  '' @ c @ '': avg='' @ format_2f (avg s) @ '', min='' @
                                    float_repr (minimum s) @ '', max='' @ float_repr (maximum s) @
                                    '' (n='' @ str_int n @ '')'']
                        | Inl e \<Rightarrow> []))
                   numeric_cols) @ ['''']"
    unfolding body_def stat_line_def by simp
  define X where "X = [''Source file: '' @ file_name, ''Total rows: '' @ str_int rows_count, ''''] @ body @ rest"
  have ls2: "ls = ''DATA INSIGHTS REPORT'' # replicate 32 CHR ''-'' # (X @ [replicate 32 CHR ''-''])"
    by (simp add: ls_def X_def)
  have Xne: "X \<noteq> []" by (simp add: X_def)
  have j1: "join_lines (X @ [replicate 32 CHR ''-'']) = join_lines X @ newline # replicate 32 CHR ''-''"
    using Xne by (rule join_lines_snoc)
  have j: "join_lines ls = ''DATA INSIGHTS REPORT'' @ [newline] @ replicate 32 CHR ''-'' @ [newline] @ mid @
                           [newline] @ replicate 32 CHR ''-''"
    unfolding ls2 using Xne j1 by (simp add: join_lines_Cons_ne mid_def X_def)
  from r b j show ?thesis unfolding ls_def by blast
qed

theorem report_lines_layout_witness:
  "report_lines ''sales_data.csv'' 1 [''x''] one_stats None None [] = Inr numeric_only_report \<and>
   (\<exists>mid. join_lines numeric_only_report =
      ''DATA INSIGHTS REPORT'' @ [newline] @ replicate 32 CHR ''-'' @ [newline] @ mid @
      [newline] @ replicate 32 CHR ''-'') \<and>
   numeric_only_report ! 6 = ''  x: avg=1.00, min=1.0, max=1.0 (n=1)''"
proof -
  have h: "\<forall>c\<in>set [''x'']. \<forall>s. one_stats c = Some s \<longrightarrow> (\<exists>n. py_int (count s) = Inr n)"
    by (simp add: one_stats_def py_int_def)
  note r0 = numeric_only_report_lines
  from report_lines_layout [OF h, of "''sales_data.csv''" 1 None None "[]"] r0
  have m: "\<exists>mid. join_lines numeric_only_report =
      ''DATA INSIGHTS REPORT'' @ [newline] @ replicate 32 CHR ''-'' @ [newline] @ mid @
      [newline] @ replicate 32 CHR ''-''" by auto
  have l: "numeric_only_report ! 6 = ''  x: avg=1.00, min=1.0, max=1.0 (n=1)''" by code_simp
  from r0 m l show ?thesis by blast
qed

end
